theory Spec2Isabelle
  imports Main "HOL-Library.Word" "HOL-Library.Char_ord" "HOL-Library.List_Lexorder"
    "HOL-Library.Product_Lexorder" "HOL-Library.Multiset"
begin

unbundle bit_operations_syntax

text \<open>
  The request signing of \<open>OmniHumanNode\<close> (nodes/omni_human): the canonical request,
  the string to sign, the signing key and \<open>generate_authorization_header\<close>, with the
  library functions they call: SHA-256 and HMAC as hashlib and hmac compute them,
  \<open>str.lower\<close>, \<open>str.strip\<close>, \<open>str.split\<close>, \<open>str.join\<close>,
  \<open>sorted\<close> and \<open>urllib.parse.quote\<close>.
\<close>

section \<open>Bytes and the hash primitives of hashlib and hmac\<close>

text \<open>
  \<open>sha256\<close> is \<open>hashlib.sha256(m).digest()\<close>: the message is padded to a multiple
  of 64 bytes (a byte 0x80, zero bytes, the bit length as 64 bits big-endian), and each
  block of 64 bytes goes through the 64 rounds of the compression function on eight 32-bit
  words. \<open>hmac\<close> is \<open>hmac.new(key, msg, hashlib.sha256).digest()\<close>: a key longer
  than a block is hashed first, then padded with zero bytes to 64 bytes.
\<close>

type_synonym byte = "8 word"
type_synonym bytes = "byte list"
type_synonym u32 = "32 word"

definition be32 :: "bytes \<Rightarrow> u32" where
  "be32 bs = foldl (\<lambda>acc b. push_bit 8 acc OR ucast b) 0 bs"

definition u32_bytes :: "u32 \<Rightarrow> bytes" where
  "u32_bytes w = [ucast (drop_bit 24 w), ucast (drop_bit 16 w), ucast (drop_bit 8 w), ucast w]"

definition len64_bytes :: "64 word \<Rightarrow> bytes" where
  "len64_bytes w = map (\<lambda>i. ucast (drop_bit (8 * (7 - i)) w)) [0..<8]"

definition sha_pad :: "bytes \<Rightarrow> bytes" where
  "sha_pad m = m @ [0x80] @ replicate ((119 - length m mod 64) mod 64) 0
                 @ len64_bytes (of_nat (8 * length m))"

fun chunks :: "nat \<Rightarrow> nat \<Rightarrow> 'a list \<Rightarrow> 'a list list" where
  "chunks 0 w xs = []"
| "chunks (Suc n) w xs = take w xs # chunks n w (drop w xs)"

definition sha_k :: "u32 list" where
  "sha_k = [
    0x428A2F98, 0x71374491, 0xB5C0FBCF, 0xE9B5DBA5, 0x3956C25B, 0x59F111F1, 0x923F82A4, 0xAB1C5ED5,
    0xD807AA98, 0x12835B01, 0x243185BE, 0x550C7DC3, 0x72BE5D74, 0x80DEB1FE, 0x9BDC06A7, 0xC19BF174,
    0xE49B69C1, 0xEFBE4786, 0x0FC19DC6, 0x240CA1CC, 0x2DE92C6F, 0x4A7484AA, 0x5CB0A9DC, 0x76F988DA,
    0x983E5152, 0xA831C66D, 0xB00327C8, 0xBF597FC7, 0xC6E00BF3, 0xD5A79147, 0x06CA6351, 0x14292967,
    0x27B70A85, 0x2E1B2138, 0x4D2C6DFC, 0x53380D13, 0x650A7354, 0x766A0ABB, 0x81C2C92E, 0x92722C85,
    0xA2BFE8A1, 0xA81A664B, 0xC24B8B70, 0xC76C51A3, 0xD192E819, 0xD6990624, 0xF40E3585, 0x106AA070,
    0x19A4C116, 0x1E376C08, 0x2748774C, 0x34B0BCB5, 0x391C0CB3, 0x4ED8AA4A, 0x5B9CCA4F, 0x682E6FF3,
    0x748F82EE, 0x78A5636F, 0x84C87814, 0x8CC70208, 0x90BEFFFA, 0xA4506CEB, 0xBEF9A3F7, 0xC67178F2]"

type_synonym sha_state = "u32 \<times> u32 \<times> u32 \<times> u32 \<times> u32 \<times> u32 \<times> u32 \<times> u32"

definition sha_init :: sha_state where
  "sha_init = (0x6a09e667, 0xbb67ae85, 0x3c6ef372, 0xa54ff53a,
               0x510e527f, 0x9b05688c, 0x1f83d9ab, 0x5be0cd19)"

fun sha_expand :: "nat \<Rightarrow> u32 list \<Rightarrow> u32 list" where
  "sha_expand 0 ws = ws"
| "sha_expand (Suc n) ws =
     (let l = length ws;
          w15 = ws ! (l - 15); w2 = ws ! (l - 2);
          s0 = word_rotr 7 w15 XOR word_rotr 18 w15 XOR drop_bit 3 w15;
          s1 = word_rotr 17 w2 XOR word_rotr 19 w2 XOR drop_bit 10 w2
      in sha_expand n (ws @ [ws ! (l - 16) + s0 + ws ! (l - 7) + s1]))"

definition sha_round :: "sha_state \<Rightarrow> u32 \<times> u32 \<Rightarrow> sha_state" where
  "sha_round st kw = (case st of (a, b, c, d, e, f, g, h) \<Rightarrow>
     (let S1 = word_rotr 6 e XOR word_rotr 11 e XOR word_rotr 25 e;
          ch = (e AND f) XOR (NOT e AND g);
          t1 = h + S1 + ch + fst kw + snd kw;
          S0 = word_rotr 2 a XOR word_rotr 13 a XOR word_rotr 22 a;
          maj = (a AND b) XOR (a AND c) XOR (b AND c);
          t2 = S0 + maj
      in (t1 + t2, a, b, c, d + t1, e, f, g)))"

definition sha_block :: "sha_state \<Rightarrow> bytes \<Rightarrow> sha_state" where
  "sha_block st blk =
     (let ws = sha_expand 48 (map be32 (chunks 16 4 blk))
      in case (st, foldl sha_round st (zip sha_k ws)) of
           ((a, b, c, d, e, f, g, h), (a', b', c', d', e', f', g', h')) \<Rightarrow>
             (a + a', b + b', c + c', d + d', e + e', f + f', g + g', h + h'))"

definition sha256 :: "bytes \<Rightarrow> bytes" where
  "sha256 m =
     (let p = sha_pad m
      in case foldl sha_block sha_init (chunks (length p div 64) 64 p) of
           (a, b, c, d, e, f, g, h) \<Rightarrow> concat (map u32_bytes [a, b, c, d, e, f, g, h]))"

definition hmac :: "bytes \<Rightarrow> bytes \<Rightarrow> bytes" where
  "hmac key msg =
     (let k0 = (if length key > 64 then sha256 key else key);
          k = k0 @ replicate (64 - length k0) 0
      in sha256 (map (\<lambda>b. b XOR 0x5c) k @ sha256 (map (\<lambda>b. b XOR 0x36) k @ msg)))"


section \<open>Python strings, lists and dictionaries\<close>

text \<open>
  A Python \<open>str\<close> is a sequence of code points. It is modelled as a \<open>string\<close> whose
  characters are the code points U+0000 to U+00FF, compared by code point as Python
  compares them (the order of \<open>Char_ord\<close>, lexicographic on strings and on items).
  On these code points \<open>encode("utf-8")\<close> never fails, \<open>lower\<close> maps A-Z and
  U+00C0 to U+00DE (but U+00D7) to the code point 32 above, and \<open>strip\<close> removes the
  white space U+0009 to U+000D, U+001C to U+0020, U+0085 and U+00A0 at both ends.
  A \<open>dict\<close> is the list of its items in insertion order, with distinct keys;
  \<open>d[k] = v\<close> replaces the value of \<open>k\<close> in place, or appends the item.
  \<open>s.split(sep)\<close> cuts at each occurrence of \<open>sep\<close> from the left; the code splits
  with the separators \<open>://\<close> and \<open>/\<close> only (Python refuses an empty one).
  \<open>quote(s, safe='')\<close> keeps the bytes of letters, digits and \<open>_.-~\<close> of the UTF-8
  encoding and writes every other byte as \<open>%XX\<close>.
\<close>

type_synonym str = string
type_synonym dict = "(str \<times> str) list"

datatype error = ValueError str | IndexError

definition utf8_char :: "char \<Rightarrow> bytes" where
  "utf8_char c = (let n = (of_char c :: nat)
     in if n < 128 then [of_nat n] else [of_nat (192 + n div 64), of_nat (128 + n mod 64)])"

definition utf8 :: "str \<Rightarrow> bytes" where
  "utf8 s = concat (map utf8_char s)"

definition ascii_bytes :: "str \<Rightarrow> bytes" where
  \<comment> \<open>a bytes literal \<open>b"..."\<close>, written with its characters\<close>
  "ascii_bytes s = map (\<lambda>c. of_nat (of_char c)) s"

definition hex_byte :: "str \<Rightarrow> byte \<Rightarrow> str" where
  "hex_byte digits b = [digits ! (unat b div 16), digits ! (unat b mod 16)]"

definition hex :: "bytes \<Rightarrow> str" where
  "hex bs = concat (map (hex_byte ''0123456789abcdef'') bs)"

definition lower_char :: "char \<Rightarrow> char" where
  "lower_char c = (let n = (of_char c :: nat)
     in if (65 \<le> n \<and> n \<le> 90) \<or> (192 \<le> n \<and> n \<le> 222 \<and> n \<noteq> 215) then char_of (n + 32) else c)"

definition lower :: "str \<Rightarrow> str" where
  "lower s = map lower_char s"

definition isspace :: "char \<Rightarrow> bool" where
  "isspace c = (let n = (of_char c :: nat)
     in (9 \<le> n \<and> n \<le> 13) \<or> (28 \<le> n \<and> n \<le> 32) \<or> n = 133 \<or> n = 160)"

definition strip :: "str \<Rightarrow> str" where
  "strip s = rev (dropWhile isspace (rev (dropWhile isspace s)))"

fun join :: "str \<Rightarrow> str list \<Rightarrow> str" where
  "join sep [] = []"
| "join sep [x] = x"
| "join sep (x # y # ys) = x @ sep @ join sep (y # ys)"

fun split_from :: "str \<Rightarrow> str \<Rightarrow> str \<Rightarrow> str list" where
  "split_from sep acc [] = [rev acc]"
| "split_from sep acc (c # cs) =
     (if sep \<noteq> [] \<and> take (length sep) (c # cs) = sep
      then rev acc # split_from sep [] (drop (length sep - 1) cs)
      else split_from sep (c # acc) cs)"

definition split :: "str \<Rightarrow> str \<Rightarrow> str list" where
  "split s sep = split_from sep [] s"

definition getitem :: "'a list \<Rightarrow> nat \<Rightarrow> error + 'a" where
  "getitem xs i = (if i < length xs then Inr (xs ! i) else Inl IndexError)"

fun setitem :: "dict \<Rightarrow> str \<Rightarrow> str \<Rightarrow> dict" where
  "setitem [] k v = [(k, v)]"
| "setitem ((k', v') # d) k v = (if k' = k then (k', v) # d else (k', v') # setitem d k v)"

definition always_safe :: "byte \<Rightarrow> bool" where
  "always_safe b = (let n = unat b
     in (65 \<le> n \<and> n \<le> 90) \<or> (97 \<le> n \<and> n \<le> 122) \<or> (48 \<le> n \<and> n \<le> 57)
        \<or> n = 95 \<or> n = 46 \<or> n = 45 \<or> n = 126)"

definition quote :: "str \<Rightarrow> str" where
  "quote s = concat (map (\<lambda>b. if always_safe b then [char_of (unat b)]
                              else CHR ''%'' # hex_byte ''0123456789ABCDEF'' b) (utf8 s))"

section \<open>The clock\<close>

text \<open>
  A reading of \<open>datetime.datetime.utcnow()\<close>, with the year from 1000 to 9999 and the
  other fields in their calendar ranges, where \<open>%Y\<close> prints four digits and
  \<open>%m\<close>, \<open>%d\<close>, \<open>%H\<close>, \<open>%M\<close>, \<open>%S\<close> two.
\<close>

record datetime =
  year :: nat
  month :: nat
  day :: nat
  hour :: nat
  minute :: nat
  second :: nat

definition digit :: "nat \<Rightarrow> char" where
  "digit d = char_of (48 + d mod 10)"

definition dec2 :: "nat \<Rightarrow> str" where
  "dec2 n = [digit (n div 10), digit n]"

definition dec4 :: "nat \<Rightarrow> str" where
  "dec4 n = [digit (n div 1000), digit (n div 100), digit (n div 10), digit n]"

section \<open>OmniHumanNode\<close>

record OmniHumanNode =
  access_key_id :: "str option"
  secret_access_key :: "str option"

definition SERVICE :: str where "SERVICE = ''cv''"
definition REGION :: str where "REGION = ''ap-singapore-1''"

definition truthy :: "str option \<Rightarrow> bool" where
  "truthy x = (case x of None \<Rightarrow> False | Some s \<Rightarrow> s \<noteq> [])"

text \<open>
  Every call into hashlib or hmac is counted: the functions that hash take the number of
  hash computations made so far and return it increased.
\<close>

definition hashlib_sha256_hexdigest :: "bytes \<Rightarrow> nat \<Rightarrow> str \<times> nat" where
  "hashlib_sha256_hexdigest d n = (hex (sha256 d), Suc n)"

definition hmac_sha256 :: "bytes \<Rightarrow> bytes \<Rightarrow> nat \<Rightarrow> bytes \<times> nat" where
  "hmac_sha256 key d n = (hmac key d, Suc n)"

definition get_amz_date :: "datetime \<Rightarrow> str" where
  "get_amz_date dt = dec4 (year dt) @ dec2 (month dt) @ dec2 (day dt) @ ''T''
                       @ dec2 (hour dt) @ dec2 (minute dt) @ dec2 (second dt) @ ''Z''"

definition get_date_stamp :: "datetime \<Rightarrow> str" where
  "get_date_stamp dt = dec4 (year dt) @ dec2 (month dt) @ dec2 (day dt)"

definition get_signing_key :: "str \<Rightarrow> str \<Rightarrow> str \<Rightarrow> str \<Rightarrow> nat \<Rightarrow> bytes \<times> nat" where
  "get_signing_key secret_key date_stamp region service n =
     (case hmac_sha256 (utf8 (''AWS4'' @ secret_key)) (utf8 date_stamp) n of (k_date, n1) \<Rightarrow>
      case hmac_sha256 k_date (utf8 region) n1 of (k_region, n2) \<Rightarrow>
      case hmac_sha256 k_region (utf8 service) n2 of (k_service, n3) \<Rightarrow>
      case hmac_sha256 k_service (ascii_bytes ''aws4_request'') n3 of (k_signing, n4) \<Rightarrow>
      (k_signing, n4))"

definition create_canonical_request :: "str \<Rightarrow> str \<Rightarrow> str \<Rightarrow> dict \<Rightarrow> str \<Rightarrow> str" where
  "create_canonical_request method uri query_string headers payload_hash =
     (let sorted_headers = sort headers;
          canonical_headers =
            concat (map (\<lambda>(k, v). lower k @ '':'' @ strip v @ ''\<newline>'') sorted_headers);
          signed_headers = join '';'' (map (\<lambda>(k, _). lower k) sorted_headers);
          canonical_request = method @ ''\<newline>'';
          canonical_request = canonical_request @ uri @ ''\<newline>'';
          canonical_request = canonical_request @ query_string @ ''\<newline>'';
          canonical_request = canonical_request @ canonical_headers @ ''\<newline>'';
          canonical_request = canonical_request @ signed_headers @ ''\<newline>'';
          canonical_request = canonical_request @ payload_hash
      in canonical_request)"

definition create_string_to_sign ::
  "str \<Rightarrow> str \<Rightarrow> str \<Rightarrow> str \<Rightarrow> str \<Rightarrow> str \<Rightarrow> nat \<Rightarrow> str \<times> nat" where
  "create_string_to_sign algorithm amz_date date_stamp region service canonical_request n =
     (let credential_scope = date_stamp @ ''/'' @ region @ ''/'' @ service @ ''/aws4_request'';
          string_to_sign = algorithm @ ''\<newline>'';
          string_to_sign = string_to_sign @ amz_date @ ''\<newline>'';
          string_to_sign = string_to_sign @ credential_scope @ ''\<newline>''
      in case hashlib_sha256_hexdigest (utf8 canonical_request) n of (h, n1) \<Rightarrow>
           (string_to_sign @ h, n1))"

text \<open>
  The call reads the clock once (\<open>now\<close>), mutates the caller's header dictionary and
  returns or raises: the model returns the outcome, the header dictionary as the caller
  finds it afterwards, and the number of hash computations made.
\<close>

definition generate_authorization_header ::
  "OmniHumanNode \<Rightarrow> datetime \<Rightarrow> str \<Rightarrow> str \<Rightarrow> dict \<Rightarrow> dict \<Rightarrow> str \<Rightarrow> nat
     \<Rightarrow> (error + str) \<times> dict \<times> nat" where
  "generate_authorization_header self now method uri query_params headers payload n =
     (if \<not> truthy (secret_access_key self) \<or> \<not> truthy (access_key_id self)
      then (Inl (ValueError
              ''access_key_id and secret_access_key must be set before generating authorization header''),
            headers, n)
      else
        let amz_date = get_amz_date now;
            date_stamp = get_date_stamp now
        in case getitem (split uri ''://'') 1 of
             Inl e \<Rightarrow> (Inl e, headers, n)
           | Inr rest \<Rightarrow>
        (case getitem (split rest ''/'') 0 of
             Inl e \<Rightarrow> (Inl e, headers, n)
           | Inr host \<Rightarrow>
        (let headers = setitem headers ''host'' host;
             headers = setitem headers ''x-amz-date'' amz_date
         in case hashlib_sha256_hexdigest (utf8 payload) n of (payload_hash, n1) \<Rightarrow>
        (let sorted_params = sort query_params;
             query_string = join ''&'' (map (\<lambda>(k, v). quote k @ ''='' @ quote v) sorted_params);
             canonical_request =
               create_canonical_request method uri query_string headers payload_hash;
             algorithm = ''HMAC-SHA256''
         in case create_string_to_sign algorithm amz_date date_stamp REGION SERVICE
                   canonical_request n1 of (string_to_sign, n2) \<Rightarrow>
            case get_signing_key (the (secret_access_key self)) date_stamp REGION SERVICE n2
              of (signing_key, n3) \<Rightarrow>
            case hmac_sha256 signing_key (utf8 string_to_sign) n3 of (signature, n4) \<Rightarrow>
        (let signature_hex = hex signature;
             credential = the (access_key_id self) @ ''/'' @ date_stamp @ ''/'' @ REGION
                            @ ''/'' @ SERVICE @ ''/request'';
             signed_headers =
               join '';'' (map (\<lambda>(k, _). lower k) (sort_key (\<lambda>x. lower (fst x)) headers));
             authorization = algorithm @ '' Credential='' @ credential @ '', ''
                               @ ''SignedHeaders='' @ signed_headers @ '', ''
                               @ ''Signature='' @ signature_hex
         in (Inr authorization, headers, n4))))))"

section \<open>Auxiliary facts\<close>

subsection \<open>The hash functions on published vectors\<close>

text \<open>
  The digest of \<open>abc\<close> from FIPS 180-4 and test case 2 of RFC 4231 for HMAC-SHA256.
\<close>

lemma sha256_vector:
  "hex (sha256 (utf8 ''abc''))
     = ''ba7816bf8f01cfea414140de5dae2223b00361a396177a9cb410ff61f20015ad''"
  by code_simp

lemma hmac_vector:
  "hex (hmac (utf8 ''Jefe'') (utf8 ''what do ya want for nothing?''))
     = ''5bdcc146bf60754e6a042426089575c75a003f089d2739839dec58b964ec3843''"
  by code_simp

subsection \<open>Digest lengths, joining and sorting\<close>

lemma length_sha256: "length (sha256 m) = 32"
  by (simp add: sha256_def u32_bytes_def Let_def split: prod.split)

lemma length_hmac: "length (hmac key msg) = 32"
  by (simp add: hmac_def Let_def length_sha256)

lemma join_append_lines:
  "ys \<noteq> [] \<Longrightarrow> join sep (xs @ ys) = concat (map (\<lambda>x. x @ sep) xs) @ join sep ys"
proof (induction xs)
  case Nil
  then show ?case by simp
next
  case (Cons x xs)
  from Cons.prems obtain z zs where "xs @ ys = z # zs"
    by (cases "xs @ ys") auto
  with Cons show ?case by simp
qed

lemma map_concat_lines:
  "concat (map (\<lambda>x. x @ sep) (map f xs)) = concat (map (\<lambda>x. f x @ sep) xs)"
  by (induction xs) simp_all

lemma case_prod_lower_fst: "(\<lambda>(k, _). lower k) = (\<lambda>x. lower (fst x))"
  by (simp add: fun_eq_iff)

lemma sorted_keys_sort: "sorted (map fst (sort (d :: dict)))"
proof -
  have "sorted_wrt (\<lambda>x y. fst x \<le> fst y) (sort d)"
    by (rule sorted_wrt_mono_rel [of _ "(\<le>)"]) (auto simp: less_eq_prod_def)
  then show ?thesis
    by (simp add: sorted_map)
qed

lemma map_of_setitem: "map_of (setitem d k v) = (map_of d)(k \<mapsto> v)"
  by (induction d k v rule: setitem.induct) (auto simp: fun_eq_iff)

lemma keys_setitem:
  "map fst (setitem d k v) = (if k \<in> set (map fst d) then map fst d else map fst d @ [k])"
  by (induction d k v rule: setitem.induct) auto

lemma distinct_setitem: "distinct (map fst d) \<Longrightarrow> distinct (map fst (setitem d k v))"
  by (simp add: keys_setitem)

lemma mset_setitem:
  "distinct (map fst d) \<Longrightarrow>
     mset (setitem d k v) = add_mset (k, v) (filter_mset (\<lambda>p. fst p \<noteq> k) (mset d))"
proof (induction d k v rule: setitem.induct)
  case (1 k v)
  show ?case by simp
next
  case (2 k' v' d k v)
  show ?case
  proof (cases "k' = k")
    case True
    with 2(2) have "\<forall>p \<in> set d. fst p \<noteq> k" by auto
    then have "filter_mset (\<lambda>p. fst p \<noteq> k) (mset d) = mset d"
      by (simp add: filter_mset_eq_conv)
    with True show ?thesis by simp
  next
    case False
    with 2 show ?thesis by simp
  qed
qed

lemma map_insort_key: "map f (insort_key f x xs) = insort (f x) (map f xs)"
  by (induction xs) simp_all

lemma map_sort_key: "map f (sort_key f xs) = sort (map f xs)"
  by (induction xs) (simp_all add: map_insort_key)

lemma sort_mset_cong: "mset xs = mset ys \<Longrightarrow> sort xs = sort ys"
  by (metis properties_for_sort mset_sort sorted_sort)

lemma create_canonical_request_cong:
  "sort h1 = sort h2 \<Longrightarrow>
     create_canonical_request m u q h1 p = create_canonical_request m u q h2 p"
  by (simp add: create_canonical_request_def)

lemma mset_augmented:
  assumes "distinct (map fst h1)" "mset h2 = mset h1"
  shows "mset (setitem (setitem h2 k v) k' v') = mset (setitem (setitem h1 k v) k' v')"
proof -
  from assms(2) have "mset (map fst h2) = mset (map fst h1)"
    by simp
  with assms(1) have d2: "distinct (map fst h2)"
    using mset_eq_imp_distinct_iff [of "map fst h2" "map fst h1"] by simp
  show ?thesis
    by (simp add: mset_setitem distinct_setitem assms d2)
qed

subsection \<open>Splitting and quoting\<close>

lemma split_from_nonempty: "split_from sep acc s \<noteq> []"
  by (induction sep acc s rule: split_from.induct) auto

lemma getitem_split_0: "getitem (split s sep) 0 = Inr (split s sep ! 0)"
  by (simp add: getitem_def split_def split_from_nonempty)

lemma split_from_cut:
  "sep \<noteq> [] \<Longrightarrow> hd sep \<notin> set a \<Longrightarrow>
     split_from sep acc (a @ sep @ rest) = (rev acc @ a) # split_from sep [] rest"
proof (induction a arbitrary: acc)
  case Nil
  then obtain c cs where sep: "sep = c # cs" by (cases sep) auto
  show ?case by (simp add: sep)
next
  case (Cons y ys)
  then obtain c cs where sep: "sep = c # cs" by (cases sep) auto
  with Cons.prems have "y \<noteq> c" by auto
  with Cons sep show ?case by simp
qed

lemma split_from_whole:
  "sep \<noteq> [] \<Longrightarrow> hd sep \<notin> set s \<Longrightarrow> split_from sep acc s = [rev acc @ s]"
proof (induction s arbitrary: acc)
  case Nil
  show ?case by simp
next
  case (Cons y ys)
  then obtain c cs where sep: "sep = c # cs" by (cases sep) auto
  with Cons.prems have "y \<noteq> c" by auto
  with Cons sep show ?case by simp
qed

lemma split_from_first: "\<exists>r. split_from sep acc s ! 0 = rev acc @ r"
  by (induction sep acc s rule: split_from.induct) auto




lemma first_segment_host:
  assumes "CHR ''/'' \<notin> set h" "h = [] \<or> last h \<noteq> CHR '':''" "rest = [] \<or> hd rest = CHR ''/''"
  shows "\<exists>r. split_from ''://'' acc (h @ rest) ! 0 = rev acc @ h @ r \<and> (r = [] \<or> hd r = CHR ''/'')"
  using assms
proof (induction h arbitrary: acc)
  case Nil
  show ?case
  proof (cases rest)
    case Nil
    then show ?thesis by simp
  next
    case (Cons c cs)
    with Nil.prems have c: "c = CHR ''/''" by simp
    obtain r where "split_from ''://'' (c # acc) cs ! 0 = rev (c # acc) @ r"
      using split_from_first by blast
    with Cons c show ?thesis by simp
  qed
next
  case (Cons y ys)
  note prems = Cons.prems
  have n: "take (length ''://'') (y # ys @ rest) \<noteq> ''://''"
  proof (cases ys)
    case Nil
    with prems have "y \<noteq> CHR '':''" by simp
    then show ?thesis by auto
  next
    case (Cons z zs)
    with prems have "z \<noteq> CHR ''/''" by auto
    with Cons show ?thesis by auto
  qed
  from prems have "CHR ''/'' \<notin> set ys" "ys = [] \<or> last ys \<noteq> CHR '':''"
    by (auto split: if_splits)
  from Cons.IH [OF this prems(3), of "y # acc"] n show ?case
    by simp
qed

lemma split_slash_first:
  assumes "CHR ''/'' \<notin> set h" "r = [] \<or> hd r = CHR ''/''"
  shows "split (h @ r) ''/'' ! 0 = h"
proof (cases r)
  case Nil
  with assms show ?thesis by (simp add: split_def split_from_whole)
next
  case (Cons c cs)
  with assms have "h @ r = h @ ''/'' @ cs" by simp
  with assms show ?thesis by (simp add: split_def split_from_cut del: append.simps)
qed

lemma host_extraction:
  assumes "CHR '':'' \<notin> set scheme" "CHR ''/'' \<notin> set host"
    "host = [] \<or> last host \<noteq> CHR '':''" "rest = [] \<or> hd rest = CHR ''/''"
  shows "\<not> length (split (scheme @ ''://'' @ host @ rest) ''://'') < 2"
    and "split (split (scheme @ ''://'' @ host @ rest) ''://'' ! 1) ''/'' ! 0 = host"
proof -
  have s: "split (scheme @ ''://'' @ host @ rest) ''://''
             = scheme # split_from ''://'' [] (host @ rest)"
    using assms(1) by (simp add: split_def split_from_cut del: append.simps split_from.simps)
  obtain x xs where x: "split_from ''://'' [] (host @ rest) = x # xs"
    using split_from_nonempty by (cases "split_from ''://'' [] (host @ rest)") auto
  with s show "\<not> length (split (scheme @ ''://'' @ host @ rest) ''://'') < 2"
    by simp
  obtain r where r: "split_from ''://'' [] (host @ rest) ! 0 = rev [] @ host @ r"
      "r = [] \<or> hd r = CHR ''/''"
    using first_segment_host [OF assms(2,3,4)] by blast
  from s r(1) have "split (scheme @ ''://'' @ host @ rest) ''://'' ! 1 = host @ r"
    by simp
  with split_slash_first [OF assms(2) r(2)]
  show "split (split (scheme @ ''://'' @ host @ rest) ''://'' ! 1) ''/'' ! 0 = host"
    by simp
qed

lemma quote_chars:
  "c \<in> set (quote s) \<Longrightarrow> c = CHR ''%'' \<or> always_safe (of_nat (of_char c))"
proof -
  have d: "always_safe (of_nat (of_char (''0123456789ABCDEF'' ! i)))" if "i < 16" for i
  proof -
    have "[0..<16] = [0, 1, 2, 3, 4, 5, 6, 7, 8, 9, 10, 11, 12, 13, 14, 15 :: nat]"
      by code_simp
    moreover from that have "i \<in> set [0..<16]"
      by simp
    ultimately have "i \<in> set [0, 1, 2, 3, 4, 5, 6, 7, 8, 9, 10, 11, 12, 13, 14, 15 :: nat]"
      by simp
    then show ?thesis
      by (auto simp: always_safe_def)
  qed
  have b: "x \<in> set (hex_byte ''0123456789ABCDEF'' b) \<Longrightarrow> always_safe (of_nat (of_char x))"
    for x and b :: byte
  proof -
    have "unat b < 2 ^ LENGTH(8)" by (rule unsigned_less)
    then have "unat b div 16 < 16" "unat b mod 16 < 16" by simp_all
    then show "x \<in> set (hex_byte ''0123456789ABCDEF'' b) \<Longrightarrow> always_safe (of_nat (of_char x))"
      using d by (auto simp: hex_byte_def)
  qed
  have s: "of_nat (unat b mod 256) = b" for b :: byte
  proof -
    have "unat b < 2 ^ LENGTH(8)" by (rule unsigned_less)
    then show ?thesis by simp
  qed
  assume "c \<in> set (quote s)"
  then show ?thesis
    by (auto simp: quote_def s dest: b split: if_splits)
qed

lemma quote_pair_chars:
  assumes "c \<in> set (quote k @ quote v)"
  shows "c = CHR ''%'' \<or> always_safe (of_nat (of_char c))"
proof -
  from assms have "c \<in> set (quote k) \<or> c \<in> set (quote v)"
    by simp
  then show ?thesis
    using quote_chars by blast
qed

subsection \<open>The outcome of a call\<close>


lemma fst_create_string_to_sign:
  "fst (create_string_to_sign a t d r s c n) = fst (create_string_to_sign a t d r s c 0)"
  by (simp add: create_string_to_sign_def hashlib_sha256_hexdigest_def)

lemma fst_get_signing_key:
  "fst (get_signing_key k d r s n) = fst (get_signing_key k d r s 0)"
  by (simp add: get_signing_key_def hmac_sha256_def)

lemma generate_authorization_header_unfold:
  "generate_authorization_header self now method uri query_params headers payload n =
     (if \<not> truthy (secret_access_key self) \<or> \<not> truthy (access_key_id self) then
        (Inl (ValueError
           ''access_key_id and secret_access_key must be set before generating authorization header''),
         headers, n)
      else if length (split uri ''://'') < 2 then (Inl IndexError, headers, n)
      else
        let hs = setitem (setitem headers ''host'' (split (split uri ''://'' ! 1) ''/'' ! 0))
                   ''x-amz-date'' (get_amz_date now);
            query_string =
              join ''&'' (map (\<lambda>(k, v). quote k @ ''='' @ quote v) (sort query_params));
            canonical_request =
              create_canonical_request method uri query_string hs (hex (sha256 (utf8 payload)));
            string_to_sign =
              fst (create_string_to_sign ''HMAC-SHA256'' (get_amz_date now) (get_date_stamp now)
                     REGION SERVICE canonical_request 0);
            signing_key =
              fst (get_signing_key (the (secret_access_key self)) (get_date_stamp now)
                     REGION SERVICE 0)
        in (Inr (''HMAC-SHA256'' @ '' Credential='' @ the (access_key_id self) @ ''/''
                   @ get_date_stamp now @ ''/'' @ REGION @ ''/'' @ SERVICE @ ''/request'' @ '', ''
                   @ ''SignedHeaders=''
                   @ join '';'' (map (\<lambda>(k, _). lower k) (sort_key (\<lambda>x. lower (fst x)) hs))
                   @ '', '' @ ''Signature='' @ hex (hmac signing_key (utf8 string_to_sign))),
            hs, n + 7))"
proof (cases "\<not> truthy (secret_access_key self) \<or> \<not> truthy (access_key_id self)")
  case True
  then show ?thesis
    by (simp add: generate_authorization_header_def)
next
  case creds: False
  show ?thesis
  proof (cases "length (split uri ''://'') < 2")
    case True
    with creds show ?thesis
      by (simp add: generate_authorization_header_def getitem_def)
  next
    case False
    then have g: "getitem (split uri ''://'') 1 = Inr (split uri ''://'' ! 1)"
      by (simp add: getitem_def)
    from creds have c: "truthy (secret_access_key self)" "truthy (access_key_id self)"
      by simp_all
    show ?thesis
      unfolding generate_authorization_header_def
      apply (simp only: c g getitem_split_0 Let_def sum.case if_False simp_thms not_True_eq_False)
      apply (simp only: False if_False)
      apply (simp add: hashlib_sha256_hexdigest_def hmac_sha256_def create_string_to_sign_def
          get_signing_key_def)
      done
  qed
qed

lemma success_cases:
  assumes "generate_authorization_header self now method uri query_params headers payload n
             = (Inr authorization, hs, n')"
  shows "truthy (secret_access_key self)" "truthy (access_key_id self)"
    "\<not> length (split uri ''://'') < 2"
  using assms by (auto simp: generate_authorization_header_unfold split: if_splits)

lemma successful_call:
  assumes "generate_authorization_header self now method uri query_params headers payload n
             = (Inr authorization, hs, n')"
  shows "authorization =
           ''HMAC-SHA256'' @ '' Credential='' @ the (access_key_id self) @ ''/''
             @ get_date_stamp now @ ''/'' @ REGION @ ''/'' @ SERVICE @ ''/request''
             @ '', SignedHeaders=''
             @ join '';'' (map lower (map fst (sort_key (\<lambda>x. lower (fst x)) hs)))
             @ '', Signature=''
             @ hex (hmac
                 (fst (get_signing_key (the (secret_access_key self)) (get_date_stamp now)
                         REGION SERVICE 0))
                 (utf8 (fst (create_string_to_sign ''HMAC-SHA256'' (get_amz_date now)
                         (get_date_stamp now) REGION SERVICE
                         (create_canonical_request method uri
                            (join ''&'' (map (\<lambda>(k, v). quote k @ ''='' @ quote v)
                               (sort query_params)))
                            hs (hex (sha256 (utf8 payload)))) 0))))"
    and "hs = setitem (setitem headers ''host'' (split (split uri ''://'' ! 1) ''/'' ! 0))
                  ''x-amz-date'' (get_amz_date now)"
    and "n' = n + 7"
proof -
  note c = success_cases [OF assms]
  from assms c show hs: "hs = setitem (setitem headers ''host''
      (split (split uri ''://'' ! 1) ''/'' ! 0)) ''x-amz-date'' (get_amz_date now)"
    by (simp add: generate_authorization_header_unfold Let_def)
  from assms c show "n' = n + 7"
    by (simp add: generate_authorization_header_unfold Let_def)
  from assms c show "authorization =
           ''HMAC-SHA256'' @ '' Credential='' @ the (access_key_id self) @ ''/''
             @ get_date_stamp now @ ''/'' @ REGION @ ''/'' @ SERVICE @ ''/request''
             @ '', SignedHeaders=''
             @ join '';'' (map lower (map fst (sort_key (\<lambda>x. lower (fst x)) hs)))
             @ '', Signature=''
             @ hex (hmac
                 (fst (get_signing_key (the (secret_access_key self)) (get_date_stamp now)
                         REGION SERVICE 0))
                 (utf8 (fst (create_string_to_sign ''HMAC-SHA256'' (get_amz_date now)
                         (get_date_stamp now) REGION SERVICE
                         (create_canonical_request method uri
                            (join ''&'' (map (\<lambda>(k, v). quote k @ ''='' @ quote v)
                               (sort query_params)))
                            hs (hex (sha256 (utf8 payload)))) 0))))"
    unfolding hs
    by (simp add: generate_authorization_header_unfold Let_def case_prod_lower_fst comp_def)
qed

subsection \<open>A call evaluated\<close>

lemma example_clock:
  "get_amz_date \<lparr>year = 2024, month = 6, day = 15, hour = 12, minute = 30, second = 45\<rparr>
     = ''20240615T123045Z''"
  "get_date_stamp \<lparr>year = 2024, month = 6, day = 15, hour = 12, minute = 30, second = 45\<rparr>
     = ''20240615''"
  by code_simp+

lemma example_host:
  "split ''https://cv.byteplusapi.com/path'' ''://'' = [''https'', ''cv.byteplusapi.com/path'']"
  "split ''cv.byteplusapi.com/path'' ''/'' = [''cv.byteplusapi.com'', ''path'']"
  by code_simp+

lemma example_sorts:
  "sort [(''B'', ''1''), (''a'', ''2''), (''host'', ''cv.byteplusapi.com''),
         (''x-amz-date'', ''20240615T123045Z'')]
     = [(''B'', ''1''), (''a'', ''2''), (''host'', ''cv.byteplusapi.com''),
        (''x-amz-date'', ''20240615T123045Z'')]"
  "map lower (map fst (sort_key (\<lambda>x. lower (fst x))
        [(''B'', ''1''), (''a'', ''2''), (''host'', ''cv.byteplusapi.com''),
         (''x-amz-date'', ''20240615T123045Z'')]))
     = [''a'', ''b'', ''host'', ''x-amz-date'']"
  "map lower [''B'', ''a'', ''host'', ''x-amz-date''] = [''b'', ''a'', ''host'', ''x-amz-date'']"
  by code_simp+

lemma example_call:
  "generate_authorization_header \<lparr>access_key_id = Some ''AK'', secret_access_key = Some ''SK''\<rparr>
     \<lparr>year = 2024, month = 6, day = 15, hour = 12, minute = 30, second = 45\<rparr>
     method ''https://cv.byteplusapi.com/path'' query_params [(''B'', ''1''), (''a'', ''2'')] payload 0
   = (Inr (''HMAC-SHA256 Credential=AK/20240615/ap-singapore-1/cv/request, SignedHeaders=a;b;host;x-amz-date, Signature=''
        @ hex (hmac (fst (get_signing_key ''SK'' ''20240615'' REGION SERVICE 0))
            (utf8 (fst (create_string_to_sign ''HMAC-SHA256'' ''20240615T123045Z'' ''20240615''
               REGION SERVICE
               (create_canonical_request method ''https://cv.byteplusapi.com/path''
                  (join ''&'' (map (\<lambda>(k, v). quote k @ ''='' @ quote v) (sort query_params)))
                  [(''B'', ''1''), (''a'', ''2''), (''host'', ''cv.byteplusapi.com''),
                   (''x-amz-date'', ''20240615T123045Z'')]
                  (hex (sha256 (utf8 payload)))) 0))))),
      [(''B'', ''1''), (''a'', ''2''), (''host'', ''cv.byteplusapi.com''),
       (''x-amz-date'', ''20240615T123045Z'')],
      7)"
proof -
  have r: "REGION = ''ap-singapore-1''" "SERVICE = ''cv''"
    by (simp_all add: REGION_def SERVICE_def)
  show ?thesis
    apply (subst generate_authorization_header_unfold)
    apply (simp add: truthy_def example_clock example_host Let_def case_prod_lower_fst)
    apply (simp add: example_sorts [simplified] comp_def)
    apply (simp add: r)
    done
qed

section \<open>The claims\<close>

text \<open>
  Claim C1. In every successful call the string that is hashed and signed is the
  canonical request built from the \<open>uri\<close> argument exactly as the caller gave it:
  the canonical request starts with the method, a newline, that \<open>uri\<close> and a
  newline, so its second line is the whole \<open>uri\<close> string, scheme and host
  included, whenever the method and the uri hold no newline. The path is never cut out
  of the uri.
\<close>

theorem canonical_request_uri_line:
  assumes "generate_authorization_header self now method uri query_params headers payload n
             = (Inr authorization, hs, n')"
  shows "\<exists>prefix rest.
           authorization = prefix
             @ hex (hmac
                 (fst (get_signing_key (the (secret_access_key self)) (get_date_stamp now)
                         REGION SERVICE 0))
                 (utf8 (fst (create_string_to_sign ''HMAC-SHA256'' (get_amz_date now)
                         (get_date_stamp now) REGION SERVICE
                         (create_canonical_request method uri
                            (join ''&'' (map (\<lambda>(k, v). quote k @ ''='' @ quote v)
                               (sort query_params)))
                            hs (hex (sha256 (utf8 payload)))) 0))))
           \<and> create_canonical_request method uri
                 (join ''&'' (map (\<lambda>(k, v). quote k @ ''='' @ quote v) (sort query_params)))
                 hs (hex (sha256 (utf8 payload)))
               = method @ ''\<newline>'' @ uri @ ''\<newline>'' @ rest
           \<and> (CHR ''\<newline>'' \<notin> set method \<and> CHR ''\<newline>'' \<notin> set uri \<longrightarrow>
                split (create_canonical_request method uri
                   (join ''&'' (map (\<lambda>(k, v). quote k @ ''='' @ quote v) (sort query_params)))
                   hs (hex (sha256 (utf8 payload)))) ''\<newline>'' ! 1 = uri)"
proof -
  let ?q = "join ''&'' (map (\<lambda>(k, v). quote k @ ''='' @ quote v) (sort query_params))"
  let ?p = "''HMAC-SHA256'' @ '' Credential='' @ the (access_key_id self) @ ''/''
             @ get_date_stamp now @ ''/'' @ REGION @ ''/'' @ SERVICE @ ''/request''
             @ '', SignedHeaders=''
             @ join '';'' (map lower (map fst (sort_key (\<lambda>x. lower (fst x)) hs)))
             @ '', Signature=''"
  obtain rest where r: "create_canonical_request method uri ?q hs (hex (sha256 (utf8 payload)))
               = method @ ''\<newline>'' @ uri @ ''\<newline>'' @ rest"
    by (simp add: create_canonical_request_def Let_def)
  have a: "authorization = ?p
             @ hex (hmac
                 (fst (get_signing_key (the (secret_access_key self)) (get_date_stamp now)
                         REGION SERVICE 0))
                 (utf8 (fst (create_string_to_sign ''HMAC-SHA256'' (get_amz_date now)
                         (get_date_stamp now) REGION SERVICE
                         (create_canonical_request method uri ?q hs
                            (hex (sha256 (utf8 payload)))) 0))))"
    using successful_call(1) [OF assms] by simp
  have "split (method @ ''\<newline>'' @ uri @ ''\<newline>'' @ rest) ''\<newline>'' ! 1 = uri"
    if "CHR ''\<newline>'' \<notin> set method" "CHR ''\<newline>'' \<notin> set uri"
    using that by (simp add: split_def split_from_cut del: append.simps split_from.simps)
  with r a show ?thesis
    by (intro exI [of _ ?p] exI [of _ rest]) simp
qed

text \<open>
  For the uri \<open>https://cv.byteplusapi.com/path\<close> the second line of the signed
  canonical request is \<open>https://cv.byteplusapi.com/path\<close>, not \<open>/path\<close>.
\<close>

theorem canonical_request_uri_line_example:
  "generate_authorization_header \<lparr>access_key_id = Some ''AK'', secret_access_key = Some ''SK''\<rparr>
     \<lparr>year = 2024, month = 6, day = 15, hour = 12, minute = 30, second = 45\<rparr>
     ''POST'' ''https://cv.byteplusapi.com/path'' [] [(''B'', ''1''), (''a'', ''2'')] ''{}'' 0
   = (Inr (''HMAC-SHA256 Credential=AK/20240615/ap-singapore-1/cv/request, SignedHeaders=a;b;host;x-amz-date, Signature=''
        @ hex (hmac (fst (get_signing_key ''SK'' ''20240615'' REGION SERVICE 0))
            (utf8 (fst (create_string_to_sign ''HMAC-SHA256'' ''20240615T123045Z'' ''20240615''
               REGION SERVICE
               (create_canonical_request ''POST'' ''https://cv.byteplusapi.com/path'' []
                  [(''B'', ''1''), (''a'', ''2''), (''host'', ''cv.byteplusapi.com''),
                   (''x-amz-date'', ''20240615T123045Z'')]
                  (hex (sha256 (utf8 ''{}'')))) 0))))),
      [(''B'', ''1''), (''a'', ''2''), (''host'', ''cv.byteplusapi.com''),
       (''x-amz-date'', ''20240615T123045Z'')],
      7)
   \<and> split (create_canonical_request ''POST'' ''https://cv.byteplusapi.com/path'' []
               [(''B'', ''1''), (''a'', ''2''), (''host'', ''cv.byteplusapi.com''),
                (''x-amz-date'', ''20240615T123045Z'')]
               (hex (sha256 (utf8 ''{}'')))) ''\<newline>'' ! 1
       = ''https://cv.byteplusapi.com/path''
   \<and> ''https://cv.byteplusapi.com/path'' \<noteq> ''/path''"
proof -
  note e = example_call [of "''POST''" "[]" "''{}''"]
  have n: "CHR ''\<newline>'' \<notin> set ''POST''" "CHR ''\<newline>'' \<notin> set ''https://cv.byteplusapi.com/path''"
    by simp_all
  from canonical_request_uri_line [OF e] n
  have "split (create_canonical_request ''POST'' ''https://cv.byteplusapi.com/path''
                 (join ''&'' (map (\<lambda>(k, v). quote k @ ''='' @ quote v) (sort [])))
               [(''B'', ''1''), (''a'', ''2''), (''host'', ''cv.byteplusapi.com''),
                (''x-amz-date'', ''20240615T123045Z'')]
               (hex (sha256 (utf8 ''{}'')))) ''\<newline>'' ! 1
       = ''https://cv.byteplusapi.com/path''"
    by blast
  with e show ?thesis
    by simp
qed




text \<open>
  Claim C3. Every successful call returns
  \<open>HMAC-SHA256 Credential={access_key_id}/{date_stamp}/{region}/{service}/request,
  SignedHeaders={signed_headers}, Signature={signature_hex}\<close>, where the signature is the
  hex HMAC-SHA256, under the signing key, of the string to sign built from the canonical
  request, and \<open>signed_headers\<close> joins with \<open>;\<close> the lower-cased names of the
  headers, augmented with \<open>host\<close> and \<open>x-amz-date\<close>, sorted by lower-cased
  name. That list is ascending, and it holds the same names as the signed-headers line of
  the canonical request, which sorts by the names as given.
\<close>

theorem authorization_header_format:
  assumes "generate_authorization_header self now method uri query_params headers payload n
             = (Inr authorization, hs, n')"
  shows "authorization =
           ''HMAC-SHA256'' @ '' Credential='' @ the (access_key_id self) @ ''/''
             @ get_date_stamp now @ ''/'' @ REGION @ ''/'' @ SERVICE @ ''/request''
             @ '', SignedHeaders=''
             @ join '';'' (map lower (map fst (sort_key (\<lambda>x. lower (fst x)) hs)))
             @ '', Signature=''
             @ hex (hmac
                 (fst (get_signing_key (the (secret_access_key self)) (get_date_stamp now)
                         REGION SERVICE 0))
                 (utf8 (fst (create_string_to_sign ''HMAC-SHA256'' (get_amz_date now)
                         (get_date_stamp now) REGION SERVICE
                         (create_canonical_request method uri
                            (join ''&'' (map (\<lambda>(k, v). quote k @ ''='' @ quote v)
                               (sort query_params)))
                            hs (hex (sha256 (utf8 payload)))) 0))))
         \<and> hs = setitem (setitem headers ''host'' (split (split uri ''://'' ! 1) ''/'' ! 0))
                  ''x-amz-date'' (get_amz_date now)
         \<and> map lower (map fst (sort_key (\<lambda>x. lower (fst x)) hs)) = sort (map lower (map fst hs))
         \<and> mset (map lower (map fst (sort_key (\<lambda>x. lower (fst x)) hs)))
             = mset (map (\<lambda>(k, v). lower k) (sort hs))"
proof -
  have m: "map lower (map fst xs) = map (\<lambda>x. lower (fst x)) xs" for xs :: dict
    by simp
  have s: "map lower (map fst (sort_key (\<lambda>x. lower (fst x)) hs)) = sort (map lower (map fst hs))"
    unfolding m by (rule map_sort_key)
  have "mset (map lower (map fst (sort_key (\<lambda>x. lower (fst x)) hs)))
             = mset (map (\<lambda>(k, v). lower k) (sort hs))"
    by (simp add: case_prod_unfold comp_def)
  with successful_call(1,2) [OF assms] s show ?thesis by blast
qed

text \<open>
  With the headers \<open>{"B": "1", "a": "2"}\<close> the header returned lists
  \<open>a;b;host;x-amz-date\<close> while the canonical request lists
  \<open>b;a;host;x-amz-date\<close>: the two orders differ.
\<close>

theorem authorization_header_format_example:
  "fst (generate_authorization_header
          \<lparr>access_key_id = Some ''AK'', secret_access_key = Some ''SK''\<rparr>
          \<lparr>year = 2024, month = 6, day = 15, hour = 12, minute = 30, second = 45\<rparr>
          ''GET'' ''https://cv.byteplusapi.com/path'' [] [(''B'', ''1''), (''a'', ''2'')] [] 0)
   = Inr (''HMAC-SHA256 Credential=AK/20240615/ap-singapore-1/cv/request, SignedHeaders=a;b;host;x-amz-date, Signature=''
        @ hex (hmac (fst (get_signing_key ''SK'' ''20240615'' REGION SERVICE 0))
            (utf8 (fst (create_string_to_sign ''HMAC-SHA256'' ''20240615T123045Z'' ''20240615''
               REGION SERVICE
               (create_canonical_request ''GET'' ''https://cv.byteplusapi.com/path'' []
                  [(''B'', ''1''), (''a'', ''2''), (''host'', ''cv.byteplusapi.com''),
                   (''x-amz-date'', ''20240615T123045Z'')]
                  (hex (sha256 (utf8 [])))) 0)))))
   \<and> map (\<lambda>(k, v). lower k)
         (sort [(''B'', ''1''), (''a'', ''2''), (''host'', ''cv.byteplusapi.com''),
                (''x-amz-date'', ''20240615T123045Z'')])
       = [''b'', ''a'', ''host'', ''x-amz-date'']"
proof -
  note e = example_call [of "''GET''" "[]" "[]"]
  have "map (\<lambda>(k, v). lower k)
         (sort [(''B'', ''1''), (''a'', ''2''), (''host'', ''cv.byteplusapi.com''),
                (''x-amz-date'', ''20240615T123045Z'')])
       = [''b'', ''a'', ''host'', ''x-amz-date'']"
    using example_sorts by (simp add: case_prod_unfold)
  moreover from e have "fst (generate_authorization_header
          \<lparr>access_key_id = Some ''AK'', secret_access_key = Some ''SK''\<rparr>
          \<lparr>year = 2024, month = 6, day = 15, hour = 12, minute = 30, second = 45\<rparr>
          ''GET'' ''https://cv.byteplusapi.com/path'' [] [(''B'', ''1''), (''a'', ''2'')] [] 0)
   = Inr (''HMAC-SHA256 Credential=AK/20240615/ap-singapore-1/cv/request, SignedHeaders=a;b;host;x-amz-date, Signature=''
        @ hex (hmac (fst (get_signing_key ''SK'' ''20240615'' REGION SERVICE 0))
            (utf8 (fst (create_string_to_sign ''HMAC-SHA256'' ''20240615T123045Z'' ''20240615''
               REGION SERVICE
               (create_canonical_request ''GET'' ''https://cv.byteplusapi.com/path'' []
                  [(''B'', ''1''), (''a'', ''2''), (''host'', ''cv.byteplusapi.com''),
                   (''x-amz-date'', ''20240615T123045Z'')]
                  (hex (sha256 (utf8 [])))) 0)))))"
    by simp
  ultimately show ?thesis
    using authorization_header_format [OF e] by blast
qed

text \<open>
  Claim C4. For every secret key, date stamp, region and service, the signing key is
  HMAC-SHA256 applied four times, each result keying the next step: the key of the first
  step is the UTF-8 encoding of "AWS4" followed by the secret key, the messages are the
  UTF-8 encoded date stamp, region and service and the bytes "aws4_request". The key
  derived is 32 bytes long, and four hash computations are counted.
\<close>

theorem get_signing_key_chain:
  "get_signing_key secret_key date_stamp region service n =
     (hmac (hmac (hmac (hmac (utf8 (''AWS4'' @ secret_key)) (utf8 date_stamp)) (utf8 region))
        (utf8 service)) (ascii_bytes ''aws4_request''), n + 4)
   \<and> length (fst (get_signing_key secret_key date_stamp region service n)) = 32"
  by (simp add: get_signing_key_def hmac_sha256_def length_hmac)

text \<open>
  Claim C5. The canonical request joins six segments with single newlines: the method,
  the URI, the query string, the header block, the signed header names and the payload
  hash. The header block is one line \<open>lower(name):strip(value)\<close> with its newline per
  header, so the request is the newline-joined list of the method, the URI, the query
  string, the header lines, one empty line, the \<open>;\<close>-joined lower-cased header names
  and the payload hash. The header lines and the signed header names follow the same
  order, that of the sorted items, which is ascending in the names as given, compared
  code point by code point; sorting keeps every item.
\<close>

theorem create_canonical_request_layout:
  "create_canonical_request method uri query_string headers payload_hash =
     join ''\<newline>''
       [method, uri, query_string,
        concat (map (\<lambda>(k, v). lower k @ '':'' @ strip v @ ''\<newline>'') (sort headers)),
        join '';'' (map (\<lambda>(k, v). lower k) (sort headers)), payload_hash]
   \<and> create_canonical_request method uri query_string headers payload_hash =
     join ''\<newline>''
       ([method, uri, query_string]
        @ map (\<lambda>(k, v). lower k @ '':'' @ strip v) (sort headers)
        @ [[], join '';'' (map (\<lambda>(k, v). lower k) (sort headers)), payload_hash])
   \<and> sorted (map fst (sort headers))
   \<and> mset (sort headers) = mset headers"
proof -
  have s: "sorted (map fst (sort headers))"
    by (rule sorted_keys_sort)
  have l: "create_canonical_request method uri query_string headers payload_hash =
     join ''\<newline>''
       (([method, uri, query_string]
        @ map (\<lambda>(k, v). lower k @ '':'' @ strip v) (sort headers))
        @ [[], join '';'' (map (\<lambda>(k, v). lower k) (sort headers)), payload_hash])"
    unfolding create_canonical_request_def Let_def
    by (subst join_append_lines) (simp_all add: comp_def case_prod_unfold)
  have j: "create_canonical_request method uri query_string headers payload_hash =
     join ''\<newline>''
       [method, uri, query_string,
        concat (map (\<lambda>(k, v). lower k @ '':'' @ strip v @ ''\<newline>'') (sort headers)),
        join '';'' (map (\<lambda>(k, v). lower k) (sort headers)), payload_hash]"
    by (simp add: create_canonical_request_def Let_def)
  from s l j show ?thesis by simp
qed

text \<open>
  With the headers \<open>{"a": " 2", "B": "1 "}\<close> the name \<open>B\<close> comes before
  \<open>a\<close>, as in a comparison by code point and unlike a case-insensitive one, and
  the values are stripped.
\<close>

theorem create_canonical_request_example:
  "create_canonical_request ''GET'' ''/'' [] [(''a'', '' 2''), (''B'', ''1 '')] ''00'' =
     ''GET\<newline>/\<newline>\<newline>b:1\<newline>a:2\<newline>\<newline>b;a\<newline>00''"
proof -
  have e: "sort [(''a'', '' 2''), (''B'', ''1 '')] = [(''B'', ''1 ''), (''a'', '' 2'')]"
    by code_simp
  have l: "lower ''a'' = ''a''" "lower ''B'' = ''b''" "strip '' 2'' = ''2''" "strip ''1 '' = ''1''"
    by code_simp+
  show ?thesis
    using create_canonical_request_layout [of "''GET''" "''/''" "[]" "[(''a'', '' 2''), (''B'', ''1 '')]" "''00''"]
    by (simp add: e l)
qed

text \<open>
  Claim C6. The string to sign is four newline-joined lines: the algorithm tag, the
  timestamp, the credential scope \<open>date_stamp/region/service/aws4_request\<close> and the
  hex SHA-256 digest of the UTF-8 encoded canonical request. One hash computation is
  counted.
\<close>

theorem create_string_to_sign_lines:
  "create_string_to_sign algorithm amz_date date_stamp region service canonical_request n =
     (join ''\<newline>''
        [algorithm, amz_date,
         date_stamp @ ''/'' @ region @ ''/'' @ service @ ''/aws4_request'',
         hex (sha256 (utf8 canonical_request))],
      Suc n)"
  by (simp add: create_string_to_sign_def hashlib_sha256_hexdigest_def)

text \<open>
  Claim C7. In every successful call the query string of the signed canonical request is
  the \<open>&\<close>-joined list of \<open>quote(k)=quote(v)\<close> over the items of
  \<open>query_params\<close> sorted ascending by key; sorting keeps every item; the query string
  of the empty mapping is empty; and a quoted key or value holds only unreserved
  characters and \<open>%\<close>, so that \<open>/\<close> is encoded too.
\<close>

theorem query_string_canonical:
  assumes "generate_authorization_header self now method uri query_params headers payload n
             = (Inr authorization, hs, n')"
  shows "(\<exists>prefix.
           authorization = prefix
             @ hex (hmac
                 (fst (get_signing_key (the (secret_access_key self)) (get_date_stamp now)
                         REGION SERVICE 0))
                 (utf8 (fst (create_string_to_sign ''HMAC-SHA256'' (get_amz_date now)
                         (get_date_stamp now) REGION SERVICE
                         (create_canonical_request method uri
                            (join ''&'' (map (\<lambda>(k, v). quote k @ ''='' @ quote v)
                               (sort query_params)))
                            hs (hex (sha256 (utf8 payload)))) 0)))))
       \<and> sorted (map fst (sort query_params))
       \<and> mset (sort query_params) = mset query_params
       \<and> (query_params = [] \<longrightarrow>
            join ''&'' (map (\<lambda>(k, v). quote k @ ''='' @ quote v) (sort query_params)) = [])
       \<and> (\<forall>(k, v) \<in> set query_params. \<forall>c \<in> set (quote k @ quote v).
            c = CHR ''%'' \<or> always_safe (of_nat (of_char c)))"
proof (intro conjI)
  let ?q = "join ''&'' (map (\<lambda>(k, v). quote k @ ''='' @ quote v) (sort query_params))"
  let ?p = "''HMAC-SHA256'' @ '' Credential='' @ the (access_key_id self) @ ''/''
             @ get_date_stamp now @ ''/'' @ REGION @ ''/'' @ SERVICE @ ''/request''
             @ '', SignedHeaders=''
             @ join '';'' (map lower (map fst (sort_key (\<lambda>x. lower (fst x)) hs)))
             @ '', Signature=''"
  have a: "authorization = ?p
             @ hex (hmac
                 (fst (get_signing_key (the (secret_access_key self)) (get_date_stamp now)
                         REGION SERVICE 0))
                 (utf8 (fst (create_string_to_sign ''HMAC-SHA256'' (get_amz_date now)
                         (get_date_stamp now) REGION SERVICE
                         (create_canonical_request method uri ?q hs
                            (hex (sha256 (utf8 payload)))) 0))))"
    using successful_call(1) [OF assms] by simp
  show "\<exists>prefix.
           authorization = prefix
             @ hex (hmac
                 (fst (get_signing_key (the (secret_access_key self)) (get_date_stamp now)
                         REGION SERVICE 0))
                 (utf8 (fst (create_string_to_sign ''HMAC-SHA256'' (get_amz_date now)
                         (get_date_stamp now) REGION SERVICE
                         (create_canonical_request method uri ?q hs
                            (hex (sha256 (utf8 payload)))) 0))))"
    by (rule exI [of _ ?p]) (rule a)
  show "sorted (map fst (sort query_params))"
    by (rule sorted_keys_sort)
  show "mset (sort query_params) = mset query_params"
    by simp
  show "query_params = [] \<longrightarrow> ?q = []"
    by simp
  show "\<forall>(k, v) \<in> set query_params. \<forall>c \<in> set (quote k @ quote v).
            c = CHR ''%'' \<or> always_safe (of_nat (of_char c))"
    using quote_pair_chars by fast
qed

text \<open>
  The parameters \<open>{"Version": "2024-06-06", "Action": "CV Submit/Task"}\<close> give the
  query string \<open>Action=CV%20Submit%2FTask&Version=2024-06-06\<close>.
\<close>

theorem query_string_canonical_example:
  "generate_authorization_header \<lparr>access_key_id = Some ''AK'', secret_access_key = Some ''SK''\<rparr>
     \<lparr>year = 2024, month = 6, day = 15, hour = 12, minute = 30, second = 45\<rparr>
     ''POST'' ''https://cv.byteplusapi.com/path''
     [(''Version'', ''2024-06-06''), (''Action'', ''CV Submit/Task'')]
     [(''B'', ''1''), (''a'', ''2'')] ''{}'' 0
   = (Inr (''HMAC-SHA256 Credential=AK/20240615/ap-singapore-1/cv/request, SignedHeaders=a;b;host;x-amz-date, Signature=''
        @ hex (hmac (fst (get_signing_key ''SK'' ''20240615'' REGION SERVICE 0))
            (utf8 (fst (create_string_to_sign ''HMAC-SHA256'' ''20240615T123045Z'' ''20240615''
               REGION SERVICE
               (create_canonical_request ''POST'' ''https://cv.byteplusapi.com/path''
                  ''Action=CV%20Submit%2FTask&Version=2024-06-06''
                  [(''B'', ''1''), (''a'', ''2''), (''host'', ''cv.byteplusapi.com''),
                   (''x-amz-date'', ''20240615T123045Z'')]
                  (hex (sha256 (utf8 ''{}'')))) 0))))),
      [(''B'', ''1''), (''a'', ''2''), (''host'', ''cv.byteplusapi.com''),
       (''x-amz-date'', ''20240615T123045Z'')],
      7)
   \<and> sorted (map fst (sort [(''Version'', ''2024-06-06''), (''Action'', ''CV Submit/Task'')]))"
proof -
  have q: "join ''&'' (map (\<lambda>(k, v). quote k @ ''='' @ quote v)
             (sort [(''Version'', ''2024-06-06''), (''Action'', ''CV Submit/Task'')]))
           = ''Action=CV%20Submit%2FTask&Version=2024-06-06''"
    by code_simp
  note e = example_call [of "''POST''"
      "[(''Version'', ''2024-06-06''), (''Action'', ''CV Submit/Task'')]" "''{}''"]
  from query_string_canonical [OF e]
  have "sorted (map fst (sort [(''Version'', ''2024-06-06''), (''Action'', ''CV Submit/Task'')]))"
    by blast
  with e show ?thesis
    unfolding q by blast
qed

text \<open>
  Claim C8. For the same credentials, clock reading, method, uri and payload, two header
  dictionaries with the same items in different insertion orders, and two query
  dictionaries with the same items in different insertion orders, give the same outcome:
  the same header string, or the same error.
\<close>

theorem header_query_order_independence:
  assumes "distinct (map fst headers)" "mset headers' = mset headers"
    "mset query_params' = mset query_params"
  shows "fst (generate_authorization_header self now method uri query_params' headers' payload n)
       = fst (generate_authorization_header self now method uri query_params headers payload n)"
proof -
  have m: "mset (setitem (setitem headers' ''host'' v) ''x-amz-date'' d)
         = mset (setitem (setitem headers ''host'' v) ''x-amz-date'' d)" for v d
    using assms(1,2) by (rule mset_augmented)
  have c: "create_canonical_request method uri q
             (setitem (setitem headers' ''host'' v) ''x-amz-date'' d) p
         = create_canonical_request method uri q
             (setitem (setitem headers ''host'' v) ''x-amz-date'' d) p" for q p v d
    by (rule create_canonical_request_cong) (rule sort_mset_cong, rule m)
  have q: "sort query_params' = sort query_params"
    using assms(3) by (rule sort_mset_cong)
  have "mset (map (\<lambda>x. lower (fst x)) (setitem (setitem headers' ''host'' v) ''x-amz-date'' d))
      = mset (map (\<lambda>x. lower (fst x)) (setitem (setitem headers ''host'' v) ''x-amz-date'' d))"
    for v d
    using m [of v d] by simp
  then have k: "map (\<lambda>x. lower (fst x))
           (sort_key (\<lambda>x. lower (fst x)) (setitem (setitem headers' ''host'' v) ''x-amz-date'' d))
        = map (\<lambda>x. lower (fst x))
           (sort_key (\<lambda>x. lower (fst x)) (setitem (setitem headers ''host'' v) ''x-amz-date'' d))"
    for v d
    unfolding map_sort_key by (rule sort_mset_cong)
  show ?thesis
    by (simp add: generate_authorization_header_unfold Let_def case_prod_lower_fst c q k)
qed

text \<open>Both dictionaries of a call permuted.\<close>

theorem header_query_order_independence_example:
  "distinct (map fst [(''B'', ''1''), (''a'', ''2'')])
   \<and> mset [(''a'', ''2''), (''B'', ''1'')] = mset [(''B'', ''1''), (''a'', ''2'')]
   \<and> mset [(''Version'', ''2024-06-06''), (''Action'', ''CVSubmitTask'')]
       = mset [(''Action'', ''CVSubmitTask''), (''Version'', ''2024-06-06'')]
   \<and> fst (generate_authorization_header
          \<lparr>access_key_id = Some ''AK'', secret_access_key = Some ''SK''\<rparr>
          \<lparr>year = 2024, month = 6, day = 15, hour = 12, minute = 30, second = 45\<rparr>
          ''POST'' ''https://cv.byteplusapi.com/path''
          [(''Version'', ''2024-06-06''), (''Action'', ''CVSubmitTask'')]
          [(''a'', ''2''), (''B'', ''1'')] ''{}'' 0)
     = fst (generate_authorization_header
          \<lparr>access_key_id = Some ''AK'', secret_access_key = Some ''SK''\<rparr>
          \<lparr>year = 2024, month = 6, day = 15, hour = 12, minute = 30, second = 45\<rparr>
          ''POST'' ''https://cv.byteplusapi.com/path''
          [(''Action'', ''CVSubmitTask''), (''Version'', ''2024-06-06'')]
          [(''B'', ''1''), (''a'', ''2'')] ''{}'' 0)"
proof -
  have d: "distinct (map fst [(''B'', ''1''), (''a'', ''2'')])"
    by simp
  have h: "mset [(''a'', ''2''), (''B'', ''1'')] = mset [(''B'', ''1''), (''a'', ''2'')]"
    by simp
  have q: "mset [(''Version'', ''2024-06-06''), (''Action'', ''CVSubmitTask'')]
       = mset [(''Action'', ''CVSubmitTask''), (''Version'', ''2024-06-06'')]"
    by simp
  from d h q header_query_order_independence [OF d h q] show ?thesis
    by blast
qed

text \<open>
  Claim C9. For a uri \<open>scheme://host\<close> followed by nothing or by a path starting with
  \<open>/\<close>, where the scheme has no \<open>:\<close>, the host has no \<open>/\<close> and does not
  end with \<open>:\<close>, a call with credentials succeeds and leaves \<open>host\<close> mapped to
  that host and \<open>x-amz-date\<close> to the timestamp in the caller's headers, every other
  header as it was.
\<close>

theorem host_header_injected:
  assumes "truthy (access_key_id self)" "truthy (secret_access_key self)"
    "CHR '':'' \<notin> set scheme" "CHR ''/'' \<notin> set host"
    "host = [] \<or> last host \<noteq> CHR '':''" "rest = [] \<or> hd rest = CHR ''/''"
  shows "\<exists>authorization hs.
           generate_authorization_header self now method (scheme @ ''://'' @ host @ rest)
             query_params headers payload n = (Inr authorization, hs, n + 7)
           \<and> map_of hs ''host'' = Some host
           \<and> map_of hs ''x-amz-date'' = Some (get_amz_date now)
           \<and> (\<forall>k. k \<noteq> ''host'' \<and> k \<noteq> ''x-amz-date'' \<longrightarrow> map_of hs k = map_of headers k)"
proof -
  note h = host_extraction [OF assms(3-6), unfolded One_nat_def]
  show ?thesis
    by (simp add: generate_authorization_header_unfold Let_def assms(1,2) h map_of_setitem
        del: append.simps)
qed

text \<open>
  The uri \<open>https://cv.byteplusapi.com/path\<close> injects the host
  \<open>cv.byteplusapi.com\<close>.
\<close>

theorem host_header_injected_example:
  "\<exists>authorization hs.
     generate_authorization_header
       \<lparr>access_key_id = Some ''AK'', secret_access_key = Some ''SK''\<rparr>
       \<lparr>year = 2024, month = 6, day = 15, hour = 12, minute = 30, second = 45\<rparr>
       ''POST'' ''https://cv.byteplusapi.com/path'' [] [] ''{}'' 0 = (Inr authorization, hs, 7)
     \<and> map_of hs ''host'' = Some ''cv.byteplusapi.com''"
proof -
  have "truthy (Some ''AK'')" "truthy (Some ''SK'')"
    by (simp_all add: truthy_def)
  moreover have "CHR '':'' \<notin> set ''https''" "CHR ''/'' \<notin> set ''cv.byteplusapi.com''"
    "''cv.byteplusapi.com'' = [] \<or> last ''cv.byteplusapi.com'' \<noteq> CHR '':''"
    "''/path'' = [] \<or> hd ''/path'' = CHR ''/''"
    by simp_all
  ultimately show ?thesis
    using host_header_injected [of
        "\<lparr>access_key_id = Some ''AK'', secret_access_key = Some ''SK''\<rparr>"
        "''https''" "''cv.byteplusapi.com''" "''/path''"
        "\<lparr>year = 2024, month = 6, day = 15, hour = 12, minute = 30, second = 45\<rparr>"
        "''POST''" "[]" "[]" "''{}''" 0]
    by auto
qed

text \<open>
  Claim C10. When the call raises the configuration error the caller's headers are as
  they were and no hash has been computed; the headers differ after a call only when
  both credentials passed the check, and then they are the headers with \<open>host\<close> and
  \<open>x-amz-date\<close> set.
\<close>

theorem credential_error_leaves_headers:
  assumes "generate_authorization_header self now method uri query_params headers payload n
             = (outcome, hs, n')"
  shows "((\<exists>msg. outcome = Inl (ValueError msg)) \<longrightarrow> hs = headers \<and> n' = n)
       \<and> (hs \<noteq> headers \<longrightarrow>
            truthy (secret_access_key self) \<and> truthy (access_key_id self)
            \<and> hs = setitem (setitem headers ''host'' (split (split uri ''://'' ! 1) ''/'' ! 0))
                     ''x-amz-date'' (get_amz_date now))"
  using assms
  by (auto simp: generate_authorization_header_unfold Let_def split: if_splits)

text \<open>With no access key the headers are returned untouched.\<close>

theorem credential_error_leaves_headers_example:
  "generate_authorization_header
          \<lparr>access_key_id = None, secret_access_key = Some ''SK''\<rparr>
          \<lparr>year = 2024, month = 6, day = 15, hour = 12, minute = 30, second = 45\<rparr>
          ''POST'' ''https://cv.byteplusapi.com/path'' []
          [(''Content-Type'', ''application/json'')] ''{}'' 0
     = (Inl (ValueError
         ''access_key_id and secret_access_key must be set before generating authorization header''),
        [(''Content-Type'', ''application/json'')], 0)"
proof -
  obtain outcome hs n' where r: "generate_authorization_header
          \<lparr>access_key_id = None, secret_access_key = Some ''SK''\<rparr>
          \<lparr>year = 2024, month = 6, day = 15, hour = 12, minute = 30, second = 45\<rparr>
          ''POST'' ''https://cv.byteplusapi.com/path'' []
          [(''Content-Type'', ''application/json'')] ''{}'' 0 = (outcome, hs, n')"
    by (metis prod_cases3)
  then have o: "outcome = Inl (ValueError
         ''access_key_id and secret_access_key must be set before generating authorization header'')"
    and n: "n' = 0"
    by (simp_all add: generate_authorization_header_def truthy_def)
  with credential_error_leaves_headers [OF r] have "hs = [(''Content-Type'', ''application/json'')]"
    by blast
  with r o n show ?thesis by simp
qed

end
